theory Spec2Isabelle
  imports Complex_Main "HOL-Library.State_Monad"
begin

section \<open>Slippi playback: seek resolution, frame hook and fast-forward policy\<close>

text \<open>
  A shallow embedding of \<^verbatim>\<open>Source/Core/Core/Slippi/SlippiPlayback.cpp\<close>.

  Integers. The fields and locals of the source are \<^verbatim>\<open>s32\<close>/\<^verbatim>\<open>int\<close>: values of
  \<^typ>\<open>int\<close> between \<open>INT_MIN\<close> and \<open>INT_MAX\<close>. Every sum and difference the
  source computes on them is reduced to 32 bits in two's complement (\<open>add_s32\<close>,
  \<open>sub_s32\<close>), which is what the machine does where C++ leaves signed overflow
  undefined; the jump of 300 frames is computed in \<^verbatim>\<open>u32\<close> and converted back, as the
  source does. A theorem that speaks of the plain sum or difference carries the
  hypothesis that it lies in the 32-bit range. The remainder operator \<^verbatim>\<open>%\<close> of C++
  truncates towards zero; it is \<open>c_rem\<close> below, not the \<open>mod\<close> of HOL.

  Threads. A function of the source is modelled as one run of its body on the shared
  state, returning the new state and what it did to the outside. Where a body waits
  for other threads, the wait is explicit: a blocked frame hook has no result, and the
  seek thread continues from whatever state the others have produced. The shared diff
  counter is studied on interleavings of the atomic steps of the threads.
\<close>

subsection \<open>Constants\<close>

definition INT_MAX :: int where
  "INT_MAX = 2147483647"

definition INT_MIN :: int where
  "INT_MIN = - 2147483648"

definition FRAME_INTERVAL :: int where
  "FRAME_INTERVAL = 900"

text \<open>
  \<^verbatim>\<open>Slippi::GAME_FIRST_FRAME\<close> and \<^verbatim>\<open>Slippi::PLAYBACK_FIRST_SAVE\<close> are declared in a header
  that is not part of the source at hand; every function that reads them takes them
  as a parameter.
\<close>

record slippi_consts =
  GAME_FIRST_FRAME :: int
  PLAYBACK_FIRST_SAVE :: int

subsection \<open>Machine arithmetic\<close>

definition c_rem :: "int \<Rightarrow> int \<Rightarrow> int" where
  "c_rem a b = sgn a * (\<bar>a\<bar> mod \<bar>b\<bar>)"

definition to_u32 :: "int \<Rightarrow> int" where
  "to_u32 x = x mod 4294967296"

definition to_s32 :: "int \<Rightarrow> int" where
  "to_s32 x = (let u = x mod 4294967296 in if u < 2147483648 then u else u - 4294967296)"

definition add_s32 :: "int \<Rightarrow> int \<Rightarrow> int" where
  "add_s32 a b = to_s32 (a + b)"

definition sub_s32 :: "int \<Rightarrow> int \<Rightarrow> int" where
  "sub_s32 a b = to_s32 (a - b)"

subsection \<open>emod\<close>

text \<open>
  \<^verbatim>\<open>s32 emod(s32 a, s32 b) { assert(b != 0); int r = a % b; return r >= 0 ? r : r + std::abs(b); }\<close>
  The failed assertion is the value \<open>None\<close>, and so is the division that traps,
  \<open>INT_MIN % -1\<close>.
\<close>

definition emod :: "int \<Rightarrow> int \<Rightarrow> int option" where
  "emod a b =
     (if b = 0 then None
      else if a = INT_MIN \<and> b = - 1 then None
      else (let r = c_rem a b in Some (if r \<ge> 0 then r else add_s32 r (to_s32 \<bar>b\<bar>))))"

text \<open>
  Line 245 of \<^verbatim>\<open>SeekThread\<close>:
  \<^verbatim>\<open>closestStateFrame = targetFrameNum - emod(targetFrameNum - Slippi::PLAYBACK_FIRST_SAVE, FRAME_INTERVAL)\<close>.
\<close>

definition closestStateFrame :: "slippi_consts \<Rightarrow> int \<Rightarrow> int option" where
  "closestStateFrame c t =
     (case emod (sub_s32 t (PLAYBACK_FIRST_SAVE c)) FRAME_INTERVAL of
        None \<Rightarrow> None
      | Some e \<Rightarrow> Some (sub_s32 t e))"

subsection \<open>State\<close>

text \<open>
  Modelled from the spec: the run state of the execution engine. \<^verbatim>\<open>Core::GetState\<close>,
  \<^verbatim>\<open>Core::SetState\<close> and their enumeration are declared outside the source at hand; the
  spec gives the interface as \<^verbatim>\<open>getRunState() -> {Running, Paused}\<close> with \<^verbatim>\<open>pause()\<close>
  and \<^verbatim>\<open>run()\<close>.
\<close>

datatype core_state = CORE_RUN | CORE_PAUSE

text \<open>
  Everything the functions of the file read or write: the fields of
  \<^verbatim>\<open>SlippiPlaybackStatus\<close>, the two threads it owns (only whether each is joinable), the
  map \<^verbatim>\<open>futureDiffs\<close> (a frame has an entry once its diff job was dispatched; the value
  is the diff the future yields), the settings of \<^verbatim>\<open>SConfig\<close> it touches, the current
  entry of \<^verbatim>\<open>g_replayComm\<close>, the run state of the engine, and the file's static counter
  \<^verbatim>\<open>numDiffsProcessing\<close>. The overclock factor is a \<^verbatim>\<open>float\<close> that is only stored and
  copied, never computed with.
\<close>

record world =
  shouldJumpBack :: bool
  shouldJumpForward :: bool
  inSlippiPlayback :: bool
  shouldRunThreads :: bool
  isHardFFW :: bool
  isSoftFFW :: bool
  lastFFWFrame :: int
  currentPlaybackFrame :: int
  targetFrameNum :: int
  latestFrame :: int
  prevOCEnable :: bool
  prevOCFactor :: real
  savestateThread_joinable :: bool
  seekThread_joinable :: bool
  futureDiffs :: "int \<rightharpoonup> string"
  m_OCEnable :: bool
  m_OCFactor :: real
  m_slippiEnableFrameIndex :: bool
  replayComm_mode :: string
  startFrame :: int
  endFrame :: int
  coreState :: core_state
  numDiffsProcessing :: int

text \<open>
  What a function does beyond changing the state: signals on the three condition
  variables, thread operations, calls into the state store, the engine and the
  on-screen display. A function returns the list of these in program order.
\<close>

datatype effect =
    Notify_condVar
  | Notify_waitingForTargetFrame
  | Notify_processingDiff
  | Wait_waitingForTargetFrame
  | OSD_FrameIndex int
  | Start_savestateThread
  | Start_seekThread
  | Detach_savestateThread
  | Detach_seekThread
  | LoadFromBuffer_iState
  | LoadFromBuffer_decoded int "string option"
  | Core_SetState core_state

subsection \<open>processDiff\<close>

text \<open>
  A diff job runs \<^verbatim>\<open>processDiff\<close> on a thread of its own. Its two updates of the atomic
  counter are separate steps: lines 44 to 45 when the job starts, lines 51 to 52 when
  the encoder has returned.
\<close>

definition processDiff_begin :: "world \<Rightarrow> effect list \<times> world" where
  "processDiff_begin w =
     ([Notify_processingDiff], w\<lparr>numDiffsProcessing := numDiffsProcessing w + 1\<rparr>)"

definition processDiff_end :: "world \<Rightarrow> effect list \<times> world" where
  "processDiff_end w =
     ([Notify_processingDiff], w\<lparr>numDiffsProcessing := numDiffsProcessing w - 1\<rparr>)"

subsection \<open>Constructor, startThreads, resetPlayback\<close>

text \<open>
  The constructor, applied to the state of the process it is run in: it sets the
  members and reads the two overclock settings. A default-constructed thread is not
  joinable and a default-constructed map is empty.
\<close>

definition SlippiPlaybackStatus :: "slippi_consts \<Rightarrow> world \<Rightarrow> world" where
  "SlippiPlaybackStatus c w =
     w\<lparr>shouldJumpBack := False,
       shouldJumpForward := False,
       inSlippiPlayback := False,
       shouldRunThreads := False,
       isHardFFW := False,
       isSoftFFW := False,
       lastFFWFrame := INT_MIN,
       currentPlaybackFrame := INT_MIN,
       targetFrameNum := INT_MAX,
       latestFrame := GAME_FIRST_FRAME c,
       prevOCEnable := m_OCEnable w,
       prevOCFactor := m_OCFactor w,
       savestateThread_joinable := False,
       seekThread_joinable := False,
       futureDiffs := Map.empty\<rparr>"

definition startThreads :: "world \<Rightarrow> effect list \<times> world" where
  "startThreads w =
     ((if \<not> savestateThread_joinable w then [Start_savestateThread] else []) @
      (if \<not> seekThread_joinable w then [Start_seekThread] else []),
      w\<lparr>shouldRunThreads := True,
        savestateThread_joinable := True,
        seekThread_joinable := True\<rparr>)"

definition resetPlayback :: "world \<Rightarrow> effect list \<times> world" where
  "resetPlayback w =
     (let (es, w1) =
        (if shouldRunThreads w then
           ((if savestateThread_joinable w then [Detach_savestateThread] else []) @
            (if seekThread_joinable w then [Detach_seekThread] else []) @
            [Notify_condVar],
            w\<lparr>shouldRunThreads := False,
              savestateThread_joinable := False,
              seekThread_joinable := False,
              futureDiffs := Map.empty\<rparr>)
         else ([], w))
      in (es, w1\<lparr>shouldJumpBack := False,
                 shouldJumpForward := False,
                 isHardFFW := False,
                 isSoftFFW := False,
                 targetFrameNum := INT_MAX,
                 inSlippiPlayback := False\<rparr>))"

subsection \<open>prepareSlippiPlayback (the frame hook)\<close>

text \<open>
  The loop at lines 96 to 100 waits on \<^verbatim>\<open>cv_processingDiff\<close> while
  \<^verbatim>\<open>shouldRunThreads && numDiffsProcessing > 3\<close>. A call made in a state where the
  condition holds does not get past the loop in that state: that is the value \<open>None\<close>.
  Otherwise the rest of the body runs.
\<close>

definition prepareSlippiPlayback :: "world \<Rightarrow> int \<Rightarrow> (effect list \<times> world) option" where
  "prepareSlippiPlayback w frameIndex =
     (if shouldRunThreads w \<and> numDiffsProcessing w > 3 then None
      else
        (let e1 = (if shouldRunThreads w \<and> c_rem (add_s32 (currentPlaybackFrame w) 122) FRAME_INTERVAL = 0
                   then [Notify_condVar] else []);
             e2 = (if m_slippiEnableFrameIndex w then [OSD_FrameIndex frameIndex] else [])
         in if inSlippiPlayback w \<and> frameIndex \<ge> targetFrameNum w then
              Some (e1 @ e2 @ [Notify_waitingForTargetFrame],
                    if targetFrameNum w < currentPlaybackFrame w
                    then w\<lparr>currentPlaybackFrame := targetFrameNum w\<rparr> else w)
            else Some (e1 @ e2, w)))"

subsection \<open>setHardFFW, loadState, shouldFFWFrame, updateWatchSettingsStartEnd\<close>

definition setHardFFW :: "bool \<Rightarrow> world \<Rightarrow> world" where
  "setHardFFW enable w =
     (let w1 = w\<lparr>isHardFFW := enable\<rparr> in
      if isHardFFW w1 then w1\<lparr>m_OCEnable := True, m_OCFactor := 4\<rparr>
      else w1\<lparr>m_OCFactor := prevOCFactor w1, m_OCEnable := prevOCEnable w1\<rparr>)"

text \<open>
  \<^verbatim>\<open>futureDiffs[closestStateFrame].get()\<close> on a frame without an entry reads a future
  that has no state; the effect then carries \<open>None\<close>.
\<close>

definition loadState :: "slippi_consts \<Rightarrow> world \<Rightarrow> int \<Rightarrow> effect list" where
  "loadState c w frame =
     (if frame = PLAYBACK_FIRST_SAVE c then [LoadFromBuffer_iState]
      else [LoadFromBuffer_decoded frame (futureDiffs w frame)])"

text \<open>
  \<^verbatim>\<open>shouldFFWFrame\<close> is translated statement by statement into the state monad over
  \<open>world\<close>: \<open>State_Monad.get\<close> reads the object, \<open>State_Monad.return\<close> is a
  \<^verbatim>\<open>return\<close>. An assignment to a member would be a \<open>State_Monad.update\<close>; the body
  has none. \<open>shouldFFWFrame\<close> is the value a call returns.
\<close>

definition shouldFFWFrame_method :: "int \<Rightarrow> (world, bool) state" where
  "shouldFFWFrame_method frameIndex =
     do {
       this \<leftarrow> State_Monad.get;
       if \<not> isSoftFFW this \<and> \<not> isHardFFW this then State_Monad.return False
       else if isHardFFW this then State_Monad.return True
       else State_Monad.return (sub_s32 frameIndex (lastFFWFrame this) \<ge> 15)
     }"

definition shouldFFWFrame :: "world \<Rightarrow> int \<Rightarrow> bool" where
  "shouldFFWFrame w frameIndex = fst (run_state (shouldFFWFrame_method frameIndex) w)"

text \<open>\<open>n\<close> consecutive calls, collecting what each returns.\<close>

fun shouldFFWFrame_calls :: "nat \<Rightarrow> int \<Rightarrow> (world, bool list) state" where
  "shouldFFWFrame_calls 0 frameIndex = State_Monad.return []"
| "shouldFFWFrame_calls (Suc n) frameIndex =
     do {
       r \<leftarrow> shouldFFWFrame_method frameIndex;
       rs \<leftarrow> shouldFFWFrame_calls n frameIndex;
       State_Monad.return (r # rs)
     }"

definition updateWatchSettingsStartEnd :: "slippi_consts \<Rightarrow> world \<Rightarrow> world" where
  "updateWatchSettingsStartEnd c w =
     (let sf = startFrame w; ef = endFrame w in
      if sf \<noteq> GAME_FIRST_FRAME c \<or> ef \<noteq> INT_MAX then
        (let w1 = (if targetFrameNum w < sf then w\<lparr>startFrame := targetFrameNum w\<rparr> else w)
         in if targetFrameNum w1 > ef then w1\<lparr>endFrame := INT_MAX\<rparr> else w1)
      else w)"

subsection \<open>SeekThread\<close>

text \<open>
  Lines 228 to 243: the target of the seek. \<^verbatim>\<open>jumpInterval\<close> is a \<^verbatim>\<open>u32\<close>, so the sum
  and the difference are computed in \<^verbatim>\<open>u32\<close> and converted back on assignment.
\<close>

definition jumpInterval :: int where
  "jumpInterval = 300"

definition jumpForwardTarget :: "world \<Rightarrow> int" where
  "jumpForwardTarget w = to_s32 (to_u32 (to_u32 (currentPlaybackFrame w) + jumpInterval))"

definition jumpBackTarget :: "world \<Rightarrow> int" where
  "jumpBackTarget w = to_s32 (to_u32 (to_u32 (currentPlaybackFrame w) - jumpInterval))"

definition resolveTarget :: "slippi_consts \<Rightarrow> world \<Rightarrow> world" where
  "resolveTarget c w =
     (let w1 = (if shouldJumpForward w then w\<lparr>targetFrameNum := jumpForwardTarget w\<rparr> else w);
          w2 = (if shouldJumpBack w1 then w1\<lparr>targetFrameNum := jumpBackTarget w1\<rparr> else w1);
          w3 = (if targetFrameNum w2 < PLAYBACK_FIRST_SAVE c
                then w2\<lparr>targetFrameNum := PLAYBACK_FIRST_SAVE c\<rparr> else w2)
      in if targetFrameNum w3 > latestFrame w3
         then w3\<lparr>targetFrameNum := latestFrame w3\<rparr> else w3)"

text \<open>
  The two loops at lines 267 to 269 and 275 to 277 have one shape: step down by
  \<^verbatim>\<open>FRAME_INTERVAL\<close> while the frame is above a bound and has no entry in
  \<^verbatim>\<open>futureDiffs\<close>. The bound is \<^verbatim>\<open>PLAYBACK_FIRST_SAVE\<close> in the first and
  \<^verbatim>\<open>currentPlaybackFrame\<close> in the second. The decrement is that of an \<^verbatim>\<open>s32\<close>, so
  the loop need not end; a loop that does not end is the value \<open>None\<close>.
\<close>

partial_function (option) walkDown :: "(int \<rightharpoonup> string) \<Rightarrow> int \<Rightarrow> int \<Rightarrow> int option" where
  "walkDown fd bound frame =
     (if frame > bound \<and> fd frame = None
      then walkDown fd bound (sub_s32 frame FRAME_INTERVAL)
      else Some frame)"

text \<open>
  Lines 248 to 284: which state, if any, is loaded. The result is \<open>None\<close> if a walk
  does not end.
\<close>

definition seekLoad :: "slippi_consts \<Rightarrow> world \<Rightarrow> int \<Rightarrow> effect list option" where
  "seekLoad c w closest =
     (let isLoadingStateOptimal =
            (targetFrameNum w \<le> currentPlaybackFrame w \<or> closest > currentPlaybackFrame w)
      in if isLoadingStateOptimal then
           (if closest \<le> PLAYBACK_FIRST_SAVE c then Some [LoadFromBuffer_iState]
            else if futureDiffs w closest \<noteq> None then Some (loadState c w closest)
            else if targetFrameNum w < currentPlaybackFrame w then
              (case walkDown (futureDiffs w) (PLAYBACK_FIRST_SAVE c)
                      (sub_s32 closest FRAME_INTERVAL) of
                 None \<Rightarrow> None
               | Some closestActualStateFrame \<Rightarrow> Some (loadState c w closestActualStateFrame))
            else if targetFrameNum w > currentPlaybackFrame w then
              (case walkDown (futureDiffs w) (currentPlaybackFrame w)
                      (sub_s32 closest FRAME_INTERVAL) of
                 None \<Rightarrow> None
               | Some closestActualStateFrame \<Rightarrow>
                   Some (if closestActualStateFrame > currentPlaybackFrame w
                         then loadState c w closestActualStateFrame else []))
            else Some [])
         else Some [])"

definition shouldSeek :: "world \<Rightarrow> bool" where
  "shouldSeek w =
     (inSlippiPlayback w \<and>
      (shouldJumpBack w \<or> shouldJumpForward w \<or> targetFrameNum w \<noteq> INT_MAX))"

text \<open>
  Lines 287 to 296. While the seek thread waits on \<^verbatim>\<open>cv_waitingForTargetFrame\<close> the
  engine runs and the other threads change the state; \<open>env\<close> is what they have made
  of it when the seek thread continues.
\<close>

definition driveFastForward :: "(world \<Rightarrow> world) \<Rightarrow> world \<Rightarrow> effect list \<times> world" where
  "driveFastForward env w =
     (let w1 = setHardFFW True w;
          w2 = w1\<lparr>coreState := CORE_RUN\<rparr>;
          w3 = env w2;
          w4 = w3\<lparr>coreState := CORE_PAUSE\<rparr>;
          w5 = setHardFFW False w4
      in ([Core_SetState CORE_RUN, Wait_waitingForTargetFrame, Core_SetState CORE_PAUSE], w5))"

text \<open>
  One pass of the loop body of \<^verbatim>\<open>SeekThread\<close> (lines 217 to 306). The result is
  \<open>None\<close> if the pass does not complete: the assertion of \<open>emod\<close> fails or a walk
  does not end.
\<close>

definition SeekThread_iteration ::
  "slippi_consts \<Rightarrow> (world \<Rightarrow> world) \<Rightarrow> world \<Rightarrow> (effect list \<times> world) option" where
  "SeekThread_iteration c env w =
     (if shouldSeek w then
        (let w1 = (if replayComm_mode w = ''queue'' then updateWatchSettingsStartEnd c w else w);
             paused = (coreState w1 = CORE_PAUSE);
             w2 = w1\<lparr>coreState := CORE_PAUSE\<rparr>;
             w3 = resolveTarget c w2
         in case closestStateFrame c (targetFrameNum w3) of
              None \<Rightarrow> None
            | Some closest \<Rightarrow>
               (case seekLoad c w3 closest of
                  None \<Rightarrow> None
                | Some e1 \<Rightarrow>
                   (let (e2, w4) = (if targetFrameNum w3 \<noteq> closest \<and> targetFrameNum w3 \<noteq> latestFrame w3
                                    then driveFastForward env w3 else ([], w3));
                        (e3, w5) = (if \<not> paused then ([Core_SetState CORE_RUN], w4\<lparr>coreState := CORE_RUN\<rparr>)
                                    else ([], w4))
                    in Some ([Core_SetState CORE_PAUSE] @ e1 @ e2 @ e3,
                             w5\<lparr>shouldJumpBack := False,
                                shouldJumpForward := False,
                                targetFrameNum := INT_MAX\<rparr>))))
      else Some ([], w))"

subsection \<open>Diff jobs and frame advances as a transition system\<close>

text \<open>
  The counter \<^verbatim>\<open>numDiffsProcessing\<close> is shared by the diff jobs and the frame hook. A
  job is \<open>Encoding\<close> between its two updates of the counter and \<open>Finished\<close> after
  the second. An event is one atomic step of one thread: a job starts, job number \<open>j\<close>
  completes, or the engine advances a frame and the hook runs. A step that cannot be
  taken in a state (a job that is not encoding cannot complete, a blocked hook does not
  return) is \<open>None\<close>.
\<close>

datatype job_pc = Encoding | Finished

datatype event = DiffStart | DiffDone nat | FrameAdvance int

fun step :: "world \<times> job_pc list \<Rightarrow> event \<Rightarrow> (world \<times> job_pc list) option" where
  "step (w, js) DiffStart = Some (snd (processDiff_begin w), js @ [Encoding])"
| "step (w, js) (DiffDone j) =
     (if j < length js \<and> js ! j = Encoding
      then Some (snd (processDiff_end w), js[j := Finished])
      else None)"
| "step (w, js) (FrameAdvance frameIndex) =
     (case prepareSlippiPlayback w frameIndex of
        None \<Rightarrow> None
      | Some (es, w') \<Rightarrow> Some (w', js))"

fun run :: "world \<times> job_pc list \<Rightarrow> event list \<Rightarrow> (world \<times> job_pc list) option" where
  "run s [] = Some s"
| "run s (e # es) = (case step s e of None \<Rightarrow> None | Some s' \<Rightarrow> run s' es)"

definition inFlight :: "job_pc list \<Rightarrow> nat" where
  "inFlight js = length (filter (\<lambda>p. p = Encoding) js)"

subsection \<open>A concrete process state\<close>

text \<open>
  Concrete values on which the functions are evaluated. The game's first frame is
  \<open>- 123\<close> and the first save is taken one frame later. In \<open>world0\<close> overclocking
  is off, the frame index is not displayed, the replay source is in normal mode with
  its bounds at their defaults, the engine runs and no diff job is in flight; the
  members of the playback status hold the values its constructor gives them.
\<close>

definition consts0 :: slippi_consts where
  "consts0 = \<lparr>GAME_FIRST_FRAME = - 123, PLAYBACK_FIRST_SAVE = - 122\<rparr>"

definition world0 :: world where
  "world0 =
     \<lparr>shouldJumpBack = False,
      shouldJumpForward = False,
      inSlippiPlayback = False,
      shouldRunThreads = False,
      isHardFFW = False,
      isSoftFFW = False,
      lastFFWFrame = INT_MIN,
      currentPlaybackFrame = INT_MIN,
      targetFrameNum = INT_MAX,
      latestFrame = - 123,
      prevOCEnable = False,
      prevOCFactor = 1,
      savestateThread_joinable = False,
      seekThread_joinable = False,
      futureDiffs = Map.empty,
      m_OCEnable = False,
      m_OCFactor = 1,
      m_slippiEnableFrameIndex = False,
      replayComm_mode = ''normal'',
      startFrame = - 123,
      endFrame = INT_MAX,
      coreState = CORE_RUN,
      numDiffsProcessing = 0\<rparr>"

text \<open>
  A session in progress: the constructor has run, the threads were started, the first
  save was taken, and the engine has advanced to frame 500 of the 800 frames received.
\<close>

definition world_playing :: world where
  "world_playing =
     (snd (startThreads (SlippiPlaybackStatus consts0 world0)))
       \<lparr>inSlippiPlayback := True,
        currentPlaybackFrame := 500,
        latestFrame := 800,
        lastFFWFrame := 480\<rparr>"

section \<open>Properties\<close>

subsection \<open>Machine arithmetic inside the 32-bit range\<close>

lemma to_s32_id: "- 2147483648 \<le> x \<Longrightarrow> x \<le> 2147483647 \<Longrightarrow> to_s32 x = x"
proof (cases "0 \<le> x")
  case True
  assume "x \<le> 2147483647"
  with True show ?thesis by (simp add: to_s32_def)
next
  case False
  assume lo: "- 2147483648 \<le> x"
  have "x mod 4294967296 = (x + 4294967296) mod 4294967296" by simp
  also have "\<dots> = x + 4294967296"
    using lo False by (intro mod_pos_pos_trivial) simp_all
  finally show ?thesis using False lo by (simp add: to_s32_def Let_def)
qed

lemma to_s32_range: "INT_MIN \<le> to_s32 x \<and> to_s32 x \<le> INT_MAX"
proof -
  have "0 \<le> x mod 4294967296" and "x mod 4294967296 < 4294967296"
    by simp_all
  then show ?thesis
    unfolding to_s32_def Let_def INT_MIN_def INT_MAX_def
    by (cases "x mod 4294967296 < 2147483648") (simp_all only: if_True if_False, linarith+)
qed

lemma sub_s32_exact: "INT_MIN \<le> a - b \<Longrightarrow> a - b \<le> INT_MAX \<Longrightarrow> sub_s32 a b = a - b"
  by (simp add: sub_s32_def to_s32_id INT_MIN_def INT_MAX_def)

lemma add_s32_exact: "INT_MIN \<le> a + b \<Longrightarrow> a + b \<le> INT_MAX \<Longrightarrow> add_s32 a b = a + b"
  by (simp add: add_s32_def to_s32_id INT_MIN_def INT_MAX_def)

lemma to_s32_to_u32: "to_s32 (to_u32 x) = to_s32 x"
  by (simp add: to_s32_def to_u32_def)

lemma to_u32_add: "to_u32 (to_u32 a + b) = to_u32 (a + b)"
  by (simp add: to_u32_def mod_add_left_eq)

lemma to_u32_diff: "to_u32 (to_u32 a - b) = to_u32 (a - b)"
  by (simp add: to_u32_def mod_diff_left_eq)

subsection \<open>Arithmetic of the snapshot grid\<close>

lemma c_rem_nonneg: "0 \<le> a \<Longrightarrow> c_rem a b = a mod \<bar>b\<bar>"
  by (cases "a = 0") (simp_all add: c_rem_def)

lemma c_rem_neg: "a < 0 \<Longrightarrow> c_rem a b = - ((- a) mod \<bar>b\<bar>)"
  by (simp add: c_rem_def)

lemma neg_mod_abs:
  "(a::int) mod \<bar>b\<bar> = (if (- a) mod \<bar>b\<bar> = 0 then 0 else \<bar>b\<bar> - (- a) mod \<bar>b\<bar>)"
  using zmod_zminus1_eq_if [of "- a" "\<bar>b\<bar>"] by simp

text \<open>
  For every divisor but 0 and \<open>INT_MIN\<close>, and but for the division that traps,
  \<open>emod\<close> is the Euclidean remainder: never negative and below the absolute value of
  the divisor.
\<close>

lemma emod_eq_mod:
  assumes "b \<noteq> 0" and "\<bar>b\<bar> \<le> INT_MAX" and "\<not> (a = INT_MIN \<and> b = - 1)"
  shows "emod a b = Some (a mod \<bar>b\<bar>)"
proof (cases "0 \<le> a")
  case True
  with assms show ?thesis
    by (auto simp: emod_def c_rem_nonneg)
next
  case False
  then have neg: "a < 0" by simp
  have r: "c_rem a b = - ((- a) mod \<bar>b\<bar>)"
    using neg by (rule c_rem_neg)
  from assms have bpos: "0 < \<bar>b\<bar>" by simp
  then have nn: "0 \<le> (- a) mod \<bar>b\<bar>"
    by simp
  have lt: "(- a) mod \<bar>b\<bar> < \<bar>b\<bar>"
    using bpos by (rule pos_mod_bound)
  have abs_b: "to_s32 \<bar>b\<bar> = \<bar>b\<bar>"
    using assms(2) bpos by (intro to_s32_id) (simp_all add: INT_MAX_def)
  show ?thesis
  proof (cases "(- a) mod \<bar>b\<bar> = 0")
    case True
    with r neg_mod_abs [of a b] assms show ?thesis
      by (auto simp: emod_def)
  next
    case False
    with nn have pos: "0 < (- a) mod \<bar>b\<bar>"
      by linarith
    from False neg_mod_abs [of a b] have m: "a mod \<bar>b\<bar> = \<bar>b\<bar> - (- a) mod \<bar>b\<bar>"
      by simp
    have "add_s32 (- ((- a) mod \<bar>b\<bar>)) \<bar>b\<bar> = - ((- a) mod \<bar>b\<bar>) + \<bar>b\<bar>"
      using pos lt assms(2) by (intro add_s32_exact) (simp_all add: INT_MIN_def)
    with pos r m abs_b assms show ?thesis
      by (auto simp: emod_def)
  qed
qed

lemma emod_900: "emod a 900 = Some (a mod 900)"
  using emod_eq_mod [of 900 a] by (simp add: INT_MAX_def)

text \<open>The two calls that have no result: the failed assertion and the trapping division.\<close>

lemma emod_traps: "emod a 0 = None \<and> emod INT_MIN (- 1) = None"
  by (simp add: emod_def)

text \<open>What line 245 computes, for every target; and what it is while nothing overflows.\<close>

lemma closestStateFrame_wraps:
  "closestStateFrame c t = Some (sub_s32 t (sub_s32 t (PLAYBACK_FIRST_SAVE c) mod 900))"
  by (simp add: closestStateFrame_def FRAME_INTERVAL_def emod_900)

lemma closestStateFrame_exact:
  assumes "INT_MIN \<le> T - PLAYBACK_FIRST_SAVE c" and "T - PLAYBACK_FIRST_SAVE c \<le> INT_MAX"
    and "INT_MIN + 899 \<le> T" and "T \<le> INT_MAX"
  shows "closestStateFrame c T = Some (T - (T - PLAYBACK_FIRST_SAVE c) mod 900)"
proof -
  let ?d = "T - PLAYBACK_FIRST_SAVE c"
  have d: "sub_s32 T (PLAYBACK_FIRST_SAVE c) = ?d"
    using assms(1,2) by (rule sub_s32_exact)
  have "0 \<le> ?d mod 900" and "?d mod 900 < 900"
    by simp_all
  with assms(3,4) have "sub_s32 T (?d mod 900) = T - ?d mod 900"
    by (intro sub_s32_exact) simp_all
  with d show ?thesis
    by (simp add: closestStateFrame_wraps)
qed

text \<open>
  C2. Let \<open>T\<close> be a seek target, below \<open>PLAYBACK_FIRST_SAVE\<close> or not, for which the
  two subtractions of line 245 stay in the 32-bit range: \<open>T - PLAYBACK_FIRST_SAVE\<close>
  lies between \<open>INT_MIN\<close> and \<open>INT_MAX\<close>, and \<open>T\<close> between \<open>INT_MIN + 899\<close> and
  \<open>INT_MAX\<close>. Then \<open>emod\<close> returns a remainder in \<open>[0, 900)\<close>, and the snapshot
  boundary computed from it, \<open>T - emod (T - PLAYBACK_FIRST_SAVE) FRAME_INTERVAL\<close>, is
  at most \<open>T\<close> and congruent to \<open>PLAYBACK_FIRST_SAVE\<close> modulo \<open>FRAME_INTERVAL\<close>.
\<close>

theorem closestStateFrame_le_target_and_on_grid:
  assumes "INT_MIN \<le> T - PLAYBACK_FIRST_SAVE c" and "T - PLAYBACK_FIRST_SAVE c \<le> INT_MAX"
    and "INT_MIN + 899 \<le> T" and "T \<le> INT_MAX"
  shows "\<exists>r k. emod (sub_s32 T (PLAYBACK_FIRST_SAVE c)) FRAME_INTERVAL = Some r
     \<and> 0 \<le> r \<and> r < FRAME_INTERVAL
     \<and> closestStateFrame c T = Some k \<and> k = T - r \<and> k \<le> T
     \<and> FRAME_INTERVAL dvd (k - PLAYBACK_FIRST_SAVE c)"
proof -
  let ?d = "T - PLAYBACK_FIRST_SAVE c"
  have d: "sub_s32 T (PLAYBACK_FIRST_SAVE c) = ?d"
    using assms(1,2) by (rule sub_s32_exact)
  have e: "emod (sub_s32 T (PLAYBACK_FIRST_SAVE c)) FRAME_INTERVAL = Some (?d mod 900)"
    by (simp add: FRAME_INTERVAL_def emod_900 d)
  have k: "closestStateFrame c T = Some (T - ?d mod 900)"
    using assms by (rule closestStateFrame_exact)
  have "T - ?d mod 900 - PLAYBACK_FIRST_SAVE c = ?d - ?d mod 900"
    by simp
  also have "\<dots> = 900 * (?d div 900)"
    by (simp add: minus_mod_eq_mult_div)
  finally have "(900::int) dvd (T - ?d mod 900 - PLAYBACK_FIRST_SAVE c)"
    by simp
  with e k show ?thesis
    by (simp add: FRAME_INTERVAL_def)
qed

text \<open>
  The theorem at the targets 2000, above the first save, and \<open>- 500\<close>, below it: the
  boundaries are 1678 and \<open>- 1022\<close>, both \<open>- 122\<close> plus a multiple of 900.
\<close>

theorem closestStateFrame_le_target_and_on_grid_witness:
  "INT_MIN \<le> 2000 - PLAYBACK_FIRST_SAVE consts0
   \<and> 2000 - PLAYBACK_FIRST_SAVE consts0 \<le> INT_MAX
   \<and> INT_MIN + 899 \<le> 2000 \<and> 2000 \<le> INT_MAX
   \<and> closestStateFrame consts0 2000 = Some 1678
   \<and> FRAME_INTERVAL dvd (1678 - PLAYBACK_FIRST_SAVE consts0)
   \<and> INT_MIN \<le> - 500 - PLAYBACK_FIRST_SAVE consts0
   \<and> - 500 - PLAYBACK_FIRST_SAVE consts0 \<le> INT_MAX
   \<and> INT_MIN + 899 \<le> - 500 \<and> - 500 \<le> INT_MAX
   \<and> closestStateFrame consts0 (- 500) = Some (- 1022)
   \<and> FRAME_INTERVAL dvd (- 1022 - PLAYBACK_FIRST_SAVE consts0)"
proof -
  have a: "INT_MIN \<le> 2000 - PLAYBACK_FIRST_SAVE consts0"
    "2000 - PLAYBACK_FIRST_SAVE consts0 \<le> INT_MAX" "INT_MIN + 899 \<le> 2000" "2000 \<le> INT_MAX"
    by (simp_all add: consts0_def INT_MIN_def INT_MAX_def)
  have b: "INT_MIN \<le> - 500 - PLAYBACK_FIRST_SAVE consts0"
    "- 500 - PLAYBACK_FIRST_SAVE consts0 \<le> INT_MAX" "INT_MIN + 899 \<le> - 500" "- 500 \<le> INT_MAX"
    by (simp_all add: consts0_def INT_MIN_def INT_MAX_def)
  have k1: "closestStateFrame consts0 2000 = Some 1678"
    using closestStateFrame_exact [OF a] by (simp add: consts0_def)
  have k2: "closestStateFrame consts0 (- 500) = Some (- 1022)"
    using closestStateFrame_exact [OF b] by (simp add: consts0_def)
  from closestStateFrame_le_target_and_on_grid [OF a] closestStateFrame_le_target_and_on_grid [OF b]
    a b k1 k2
  show ?thesis
    by simp
qed

text \<open>
  Outside that range the subtraction wraps and the boundary leaves the grid: at the
  target \<open>INT_MAX\<close> the difference \<open>T - PLAYBACK_FIRST_SAVE\<close> wraps to
  \<open>- 2147483527\<close>, \<open>emod\<close> gives 173, and the boundary 2147483474 is not
  \<open>- 122\<close> plus a multiple of 900.
\<close>

lemma closestStateFrame_off_grid_at_INT_MAX:
  "closestStateFrame consts0 INT_MAX = Some 2147483474
   \<and> \<not> FRAME_INTERVAL dvd (2147483474 - PLAYBACK_FIRST_SAVE consts0)"
  by (simp add: closestStateFrame_def emod_def c_rem_def sub_s32_def add_s32_def to_s32_def
      consts0_def INT_MAX_def INT_MIN_def FRAME_INTERVAL_def Let_def)

subsection \<open>Evaluating the concrete states\<close>

lemma world_playing_eq:
  "world_playing =
     \<lparr>shouldJumpBack = False,
      shouldJumpForward = False,
      inSlippiPlayback = True,
      shouldRunThreads = True,
      isHardFFW = False,
      isSoftFFW = False,
      lastFFWFrame = 480,
      currentPlaybackFrame = 500,
      targetFrameNum = 2147483647,
      latestFrame = 800,
      prevOCEnable = False,
      prevOCFactor = 1,
      savestateThread_joinable = True,
      seekThread_joinable = True,
      futureDiffs = Map.empty,
      m_OCEnable = False,
      m_OCFactor = 1,
      m_slippiEnableFrameIndex = False,
      replayComm_mode = ''normal'',
      startFrame = - 123,
      endFrame = 2147483647,
      coreState = CORE_RUN,
      numDiffsProcessing = 0\<rparr>"
  by (simp add: world_playing_def startThreads_def SlippiPlaybackStatus_def world0_def
      consts0_def INT_MAX_def)

subsection \<open>The in-flight diff counter\<close>

lemma inFlight_append: "inFlight (js @ [Encoding]) = inFlight js + 1"
  by (simp add: inFlight_def)

lemma inFlight_done:
  "j < length js \<Longrightarrow> js ! j = Encoding \<Longrightarrow> inFlight (js[j := Finished]) + 1 = inFlight js"
proof (induction js arbitrary: j)
  case Nil
  then show ?case by simp
next
  case (Cons p ps)
  show ?case
  proof (cases j)
    case 0
    with Cons.prems show ?thesis by (simp add: inFlight_def)
  next
    case (Suc k)
    with Cons.prems have "inFlight (ps[k := Finished]) + 1 = inFlight ps"
      by (intro Cons.IH) simp_all
    with Suc show ?thesis by (simp add: inFlight_def)
  qed
qed

lemma prepareSlippiPlayback_counter:
  "prepareSlippiPlayback w i = Some (es, w') \<Longrightarrow> numDiffsProcessing w' = numDiffsProcessing w"
  by (auto simp: prepareSlippiPlayback_def Let_def split: if_splits)

lemma step_counter:
  assumes "step (w, js) e = Some (w', js')"
    and "numDiffsProcessing w = int (inFlight js)"
  shows "numDiffsProcessing w' = int (inFlight js')"
proof (cases e)
  case DiffStart
  with assms show ?thesis
    by (auto simp: processDiff_begin_def inFlight_append)
next
  case (DiffDone j)
  with assms have j: "j < length js" "js ! j = Encoding"
    and w': "w' = snd (processDiff_end w)" and js': "js' = js[j := Finished]"
    by (auto split: if_splits)
  from inFlight_done [OF j] js' have "int (inFlight js') = int (inFlight js) - 1"
    by simp
  with w' assms(2) show ?thesis
    by (simp add: processDiff_end_def)
next
  case (FrameAdvance i)
  with assms show ?thesis
    by (auto split: option.splits dest: prepareSlippiPlayback_counter)
qed

lemma run_counter:
  "run (w, js) es = Some (w', js') \<Longrightarrow> numDiffsProcessing w = int (inFlight js) \<Longrightarrow>
   numDiffsProcessing w' = int (inFlight js')"
proof (induction es arbitrary: w js)
  case Nil
  then show ?case by simp
next
  case (Cons e es)
  from Cons.prems(1) obtain w1 js1 where s: "step (w, js) e = Some (w1, js1)"
    and r: "run (w1, js1) es = Some (w', js')"
    by (auto split: option.splits)
  from step_counter [OF s Cons.prems(2)] have "numDiffsProcessing w1 = int (inFlight js1)" .
  with r show ?case by (rule Cons.IH)
qed

lemma blocked_iff:
  "(prepareSlippiPlayback w i = None) = (shouldRunThreads w \<and> 3 < numDiffsProcessing w)"
  by (simp add: prepareSlippiPlayback_def Let_def)

text \<open>
  C1, as the code has it. Start with the counter at 0 and no job. After every sequence
  of diff-job starts, diff-job completions and frame advances, the counter equals the
  number of jobs that are between their two updates of it, so it never goes negative.
  The frame hook is blocked exactly when \<open>shouldRunThreads\<close> holds and the counter is
  greater than 3, that is with four or more jobs in flight; with three in flight it
  lets the frame through. A diff job can start in every state, whatever the counter:
  the counter has no upper bound of 3.
\<close>

theorem numDiffsProcessing_counts_jobs_in_flight:
  assumes "run (w0, []) evs = Some (w, js)"
    and "numDiffsProcessing w0 = 0"
  shows "numDiffsProcessing w = int (inFlight js)
     \<and> 0 \<le> numDiffsProcessing w
     \<and> (\<forall>i. (prepareSlippiPlayback w i = None) = (shouldRunThreads w \<and> 3 < numDiffsProcessing w))
     \<and> (\<exists>w' js'. step (w, js) DiffStart = Some (w', js')
            \<and> numDiffsProcessing w' = numDiffsProcessing w + 1)"
proof -
  from assms(2) have "numDiffsProcessing w0 = int (inFlight [])"
    by (simp add: inFlight_def)
  with assms(1) have eq: "numDiffsProcessing w = int (inFlight js)"
    by (rule run_counter)
  then have "0 \<le> numDiffsProcessing w"
    by simp
  moreover have "\<exists>w' js'. step (w, js) DiffStart = Some (w', js')
            \<and> numDiffsProcessing w' = numDiffsProcessing w + 1"
    by (simp add: processDiff_begin_def)
  ultimately show ?thesis
    using eq by (simp add: blocked_iff)
qed

text \<open>
  The theorem at a concrete run: two jobs start, a frame advances, the first job
  completes. One job is left in flight and the counter is 1.
\<close>

theorem numDiffsProcessing_counts_jobs_in_flight_witness:
  "run (snd (startThreads world0), []) [DiffStart, DiffStart, FrameAdvance 0, DiffDone 0]
     = Some ((snd (startThreads world0))\<lparr>numDiffsProcessing := 1\<rparr>, [Finished, Encoding])
   \<and> numDiffsProcessing (snd (startThreads world0)) = 0
   \<and> numDiffsProcessing ((snd (startThreads world0))\<lparr>numDiffsProcessing := 1\<rparr>)
       = int (inFlight [Finished, Encoding])
   \<and> prepareSlippiPlayback ((snd (startThreads world0))\<lparr>numDiffsProcessing := 1\<rparr>) 1 \<noteq> None"
proof -
  have r: "run (snd (startThreads world0), []) [DiffStart, DiffStart, FrameAdvance 0, DiffDone 0]
     = Some ((snd (startThreads world0))\<lparr>numDiffsProcessing := 1\<rparr>, [Finished, Encoding])"
    by (simp add: world0_def startThreads_def processDiff_begin_def processDiff_end_def
        prepareSlippiPlayback_def Let_def)
  have z: "numDiffsProcessing (snd (startThreads world0)) = 0"
    by (simp add: world0_def startThreads_def)
  from numDiffsProcessing_counts_jobs_in_flight [OF r z] r z show ?thesis
    by (simp add: startThreads_def)
qed

text \<open>
  C1 as stated fails. With three diff jobs in flight the hook does not block
  (\<open>3 > 3\<close> is false), the frame advances, and a fourth job starts: the counter is 4.
\<close>

theorem numDiffsProcessing_exceeds_three_counterexample:
  "map_option (\<lambda>(w, js). (numDiffsProcessing w, inFlight js))
     (run (snd (startThreads world0), []) [DiffStart, DiffStart, DiffStart]) = Some (3, 3)
   \<and> map_option (\<lambda>(w, js). (numDiffsProcessing w, inFlight js))
     (run (snd (startThreads world0), [])
        [DiffStart, DiffStart, DiffStart, FrameAdvance 0, DiffStart]) = Some (4, 4)"
  by (simp add: world0_def startThreads_def processDiff_begin_def prepareSlippiPlayback_def
      Let_def inFlight_def)

subsection \<open>The frame hook at the target frame\<close>

text \<open>
  C3. Take a call of the hook with \<open>inSlippiPlayback\<close> set and
  \<open>frameIndex \<ge> targetFrameNum\<close> that gets past the wait on the diff counter. It
  returns; afterwards \<open>currentPlaybackFrame\<close> is not ahead of \<open>targetFrameNum\<close>: a
  value that had overshot the target is set back to exactly the target, any other value
  is left alone, no other part of the state changes, and
  \<open>cv_waitingForTargetFrame\<close> is notified.
\<close>

theorem prepareSlippiPlayback_reconciles_currentPlaybackFrame:
  assumes "inSlippiPlayback w"
    and "targetFrameNum w \<le> frameIndex"
    and "\<not> (shouldRunThreads w \<and> 3 < numDiffsProcessing w)"
  shows "\<exists>es w'. prepareSlippiPlayback w frameIndex = Some (es, w')
     \<and> currentPlaybackFrame w' \<le> targetFrameNum w'
     \<and> targetFrameNum w' = targetFrameNum w
     \<and> (if targetFrameNum w < currentPlaybackFrame w
         then w' = w\<lparr>currentPlaybackFrame := targetFrameNum w\<rparr>
         else w' = w)
     \<and> Notify_waitingForTargetFrame \<in> set es"
  using assms by (auto simp: prepareSlippiPlayback_def Let_def)

text \<open>
  The theorem at a concrete call: the target is 2000, playback has run on to 2005 and
  the hook is called for frame 2005.
\<close>

theorem prepareSlippiPlayback_reconciles_currentPlaybackFrame_witness:
  "inSlippiPlayback (world_playing\<lparr>currentPlaybackFrame := 2005, targetFrameNum := 2000\<rparr>)
   \<and> targetFrameNum (world_playing\<lparr>currentPlaybackFrame := 2005, targetFrameNum := 2000\<rparr>) \<le> 2005
   \<and> map_option (currentPlaybackFrame \<circ> snd)
        (prepareSlippiPlayback (world_playing\<lparr>currentPlaybackFrame := 2005, targetFrameNum := 2000\<rparr>) 2005)
       = Some 2000
   \<and> map_option fst
        (prepareSlippiPlayback (world_playing\<lparr>currentPlaybackFrame := 2005, targetFrameNum := 2000\<rparr>) 2005)
       = Some [Notify_waitingForTargetFrame]"
proof -
  let ?w = "world_playing\<lparr>currentPlaybackFrame := 2005, targetFrameNum := 2000\<rparr>"
  have a: "inSlippiPlayback ?w"
    by (simp add: world_playing_def)
  have b: "targetFrameNum ?w \<le> 2005"
    by simp
  have c: "\<not> (shouldRunThreads ?w \<and> 3 < numDiffsProcessing ?w)"
    by (simp add: world_playing_def startThreads_def SlippiPlaybackStatus_def world0_def)
  from prepareSlippiPlayback_reconciles_currentPlaybackFrame [OF a b c] a b show ?thesis
    by (auto simp: prepareSlippiPlayback_def Let_def c_rem_def FRAME_INTERVAL_def
        add_s32_def to_s32_def world_playing_def startThreads_def SlippiPlaybackStatus_def
        world0_def)
qed

subsection \<open>The fast-forward policy\<close>

text \<open>
  Running the body of \<open>shouldFFWFrame\<close>: the value it returns and the state it
  leaves.
\<close>

lemma run_shouldFFWFrame_method:
  "run_state (shouldFFWFrame_method frameIndex) w
     = (isHardFFW w \<or> (isSoftFFW w \<and> sub_s32 frameIndex (lastFFWFrame w) \<ge> 15), w)"
  by (simp add: shouldFFWFrame_method_def)

text \<open>
  C9, as the code has it. \<open>shouldFFWFrame\<close> returns true exactly when \<open>isHardFFW\<close>
  is set, or \<open>isSoftFFW\<close> is set and the difference \<open>frameIndex - lastFFWFrame\<close>, as
  the \<^verbatim>\<open>s32\<close> subtraction gives it, is at least 15. Where the difference lies in the
  32-bit range that is \<open>frameIndex - lastFFWFrame \<ge> 15\<close>. When neither flag is set the
  function returns false, whatever the distance to the last fast-forwarded frame.
\<close>

theorem shouldFFWFrame_policy:
  "shouldFFWFrame w frameIndex
     = (isHardFFW w \<or> (isSoftFFW w \<and> sub_s32 frameIndex (lastFFWFrame w) \<ge> 15))
   \<and> (INT_MIN \<le> frameIndex - lastFFWFrame w \<and> frameIndex - lastFFWFrame w \<le> INT_MAX
        \<longrightarrow> shouldFFWFrame w frameIndex
            = (isHardFFW w \<or> (isSoftFFW w \<and> frameIndex - lastFFWFrame w \<ge> 15)))
   \<and> (\<not> isSoftFFW w \<and> \<not> isHardFFW w \<longrightarrow> \<not> shouldFFWFrame w frameIndex)"
  by (auto simp: shouldFFWFrame_def run_shouldFFWFrame_method sub_s32_exact)

text \<open>
  The theorem at a soft fast-forward, 20 frames and 10 frames after the last
  fast-forwarded frame, and with no fast-forward at all.
\<close>

theorem shouldFFWFrame_policy_witness:
  "isSoftFFW (world_playing\<lparr>isSoftFFW := True\<rparr>)
   \<and> \<not> isHardFFW (world_playing\<lparr>isSoftFFW := True\<rparr>)
   \<and> INT_MIN \<le> 500 - lastFFWFrame (world_playing\<lparr>isSoftFFW := True\<rparr>)
   \<and> 500 - lastFFWFrame (world_playing\<lparr>isSoftFFW := True\<rparr>) \<le> INT_MAX
   \<and> shouldFFWFrame (world_playing\<lparr>isSoftFFW := True\<rparr>) 500
   \<and> \<not> shouldFFWFrame (world_playing\<lparr>isSoftFFW := True\<rparr>) 490
   \<and> \<not> isSoftFFW world_playing \<and> \<not> isHardFFW world_playing
   \<and> \<not> shouldFFWFrame world_playing 500"
  using shouldFFWFrame_policy [of "world_playing\<lparr>isSoftFFW := True\<rparr>" 500]
    shouldFFWFrame_policy [of "world_playing\<lparr>isSoftFFW := True\<rparr>" 490]
    shouldFFWFrame_policy [of world_playing 500]
  by (simp add: world_playing_eq INT_MIN_def INT_MAX_def sub_s32_def to_s32_def)

text \<open>
  C9 as stated fails. With neither flag set and the last fast-forwarded frame 20
  frames back, \<open>isHardFFW \<or> frameIndex - lastFFWFrame \<ge> 15\<close> holds and the function
  returns false. And with \<open>isSoftFFW\<close> set while \<open>lastFFWFrame\<close> still has the value
  \<open>INT_MIN\<close> the constructor gives it, frame 0 is more than 15 frames on, but the
  \<^verbatim>\<open>s32\<close> difference is \<open>INT_MIN\<close> and the function returns false.
\<close>

theorem shouldFFWFrame_needs_soft_flag_counterexample:
  "\<not> isHardFFW world_playing \<and> \<not> isSoftFFW world_playing
   \<and> 500 - lastFFWFrame world_playing \<ge> 15
   \<and> \<not> shouldFFWFrame world_playing 500
   \<and> isSoftFFW ((SlippiPlaybackStatus consts0 world0)\<lparr>isSoftFFW := True\<rparr>)
   \<and> 0 - lastFFWFrame ((SlippiPlaybackStatus consts0 world0)\<lparr>isSoftFFW := True\<rparr>) \<ge> 15
   \<and> sub_s32 0 (lastFFWFrame ((SlippiPlaybackStatus consts0 world0)\<lparr>isSoftFFW := True\<rparr>))
       = - 2147483648
   \<and> \<not> shouldFFWFrame ((SlippiPlaybackStatus consts0 world0)\<lparr>isSoftFFW := True\<rparr>) 0"
  by (simp add: shouldFFWFrame_def run_shouldFFWFrame_method world_playing_eq
      SlippiPlaybackStatus_def world0_def INT_MIN_def sub_s32_def to_s32_def)

text \<open>
  C10. \<open>shouldFFWFrame\<close> is a query: running its body leaves the state it was given,
  so any number of consecutive calls with one \<open>frameIndex\<close> return the same result
  each time and leave the state, \<open>lastFFWFrame\<close> and the fast-forward flags included,
  as it was.
\<close>

theorem shouldFFWFrame_is_pure:
  "snd (run_state (shouldFFWFrame_method frameIndex) w) = w
   \<and> run_state (shouldFFWFrame_calls n frameIndex) w
       = (replicate n (shouldFFWFrame w frameIndex), w)"
proof -
  have one: "run_state (shouldFFWFrame_method frameIndex) v = (shouldFFWFrame v frameIndex, v)" for v
    by (simp add: shouldFFWFrame_def run_shouldFFWFrame_method)
  have "run_state (shouldFFWFrame_calls n frameIndex) w
       = (replicate n (shouldFFWFrame w frameIndex), w)"
    by (induction n) (simp_all add: one)
  with one [of w] show ?thesis
    by simp
qed

subsection \<open>Resolving the seek target\<close>

text \<open>Inside the 32-bit range the jump is the plain sum or difference.\<close>

lemma jumpBackTarget_exact:
  "INT_MIN + 300 \<le> currentPlaybackFrame w \<Longrightarrow> currentPlaybackFrame w \<le> INT_MAX \<Longrightarrow>
   jumpBackTarget w = currentPlaybackFrame w - 300"
  by (simp add: jumpBackTarget_def jumpInterval_def to_s32_to_u32 to_u32_diff to_s32_id
      INT_MIN_def INT_MAX_def)

lemma jumpForwardTarget_exact:
  "INT_MIN \<le> currentPlaybackFrame w \<Longrightarrow> currentPlaybackFrame w \<le> INT_MAX - 300 \<Longrightarrow>
   jumpForwardTarget w = currentPlaybackFrame w + 300"
  by (simp add: jumpForwardTarget_def jumpInterval_def to_s32_to_u32 to_u32_add to_s32_id
      INT_MIN_def INT_MAX_def)

lemma resolveTarget_target:
  "targetFrameNum (resolveTarget c w) =
     min (latestFrame w)
       (max (PLAYBACK_FIRST_SAVE c)
          (if shouldJumpBack w then jumpBackTarget w
           else if shouldJumpForward w then jumpForwardTarget w
           else targetFrameNum w))"
  by (simp add: resolveTarget_def Let_def jumpBackTarget_def jumpForwardTarget_def)

lemma resolveTarget_frame:
  "resolveTarget c w = w\<lparr>targetFrameNum := targetFrameNum (resolveTarget c w)\<rparr>"
  by (simp add: resolveTarget_def Let_def)

text \<open>
  C4. Take a seek resolution in a state where the interval is not empty,
  \<open>PLAYBACK_FIRST_SAVE \<le> latestFrame\<close>. The resolved \<open>targetFrameNum\<close> lies in
  \<open>[PLAYBACK_FIRST_SAVE, latestFrame]\<close>. A backward jump whose raw target
  \<open>currentPlaybackFrame - 300\<close> falls below \<open>PLAYBACK_FIRST_SAVE\<close> yields
  \<open>PLAYBACK_FIRST_SAVE\<close>, and a forward jump whose raw target
  \<open>currentPlaybackFrame + 300\<close> exceeds \<open>latestFrame\<close> yields \<open>latestFrame\<close>. The raw
  target is the plain difference or sum where that is in the 32-bit range, which the
  two implications require. A request with \<open>shouldJumpBack\<close> set is a backward jump,
  also when \<open>shouldJumpForward\<close> is set with it (line 233 overrides line 231); a
  forward jump is one with \<open>shouldJumpForward\<close> set and \<open>shouldJumpBack\<close> clear.
  Nothing but \<open>targetFrameNum\<close> changes.
\<close>

theorem resolveTarget_clamps:
  assumes "PLAYBACK_FIRST_SAVE c \<le> latestFrame w"
  shows "PLAYBACK_FIRST_SAVE c \<le> targetFrameNum (resolveTarget c w)
     \<and> targetFrameNum (resolveTarget c w) \<le> latestFrame w
     \<and> (shouldJumpBack w
          \<and> INT_MIN + 300 \<le> currentPlaybackFrame w \<and> currentPlaybackFrame w \<le> INT_MAX
          \<and> currentPlaybackFrame w - 300 < PLAYBACK_FIRST_SAVE c
          \<longrightarrow> targetFrameNum (resolveTarget c w) = PLAYBACK_FIRST_SAVE c)
     \<and> (shouldJumpForward w \<and> \<not> shouldJumpBack w
          \<and> INT_MIN \<le> currentPlaybackFrame w \<and> currentPlaybackFrame w \<le> INT_MAX - 300
          \<and> latestFrame w < currentPlaybackFrame w + 300
          \<longrightarrow> targetFrameNum (resolveTarget c w) = latestFrame w)
     \<and> resolveTarget c w = w\<lparr>targetFrameNum := targetFrameNum (resolveTarget c w)\<rparr>"
proof -
  have frame: "resolveTarget c w = w\<lparr>targetFrameNum := targetFrameNum (resolveTarget c w)\<rparr>"
    by (rule resolveTarget_frame)
  have bounds: "PLAYBACK_FIRST_SAVE c \<le> targetFrameNum (resolveTarget c w)
      \<and> targetFrameNum (resolveTarget c w) \<le> latestFrame w"
    using assms by (simp add: resolveTarget_target)
  have bwd: "targetFrameNum (resolveTarget c w) = PLAYBACK_FIRST_SAVE c"
    if "shouldJumpBack w" and "INT_MIN + 300 \<le> currentPlaybackFrame w"
      and "currentPlaybackFrame w \<le> INT_MAX"
      and "currentPlaybackFrame w - 300 < PLAYBACK_FIRST_SAVE c"
    using that assms jumpBackTarget_exact [OF that(2,3)]
    by (simp add: resolveTarget_target)
  have fwd: "targetFrameNum (resolveTarget c w) = latestFrame w"
    if "shouldJumpForward w" and "\<not> shouldJumpBack w" and "INT_MIN \<le> currentPlaybackFrame w"
      and "currentPlaybackFrame w \<le> INT_MAX - 300"
      and "latestFrame w < currentPlaybackFrame w + 300"
    using that assms jumpForwardTarget_exact [OF that(3,4)]
    by (simp add: resolveTarget_target)
  from frame bounds bwd fwd show ?thesis
    by (intro conjI impI) simp_all
qed

text \<open>
  The theorem at concrete seeks of a session at frame 500 of 800: a backward jump
  goes to frame 200, a backward jump from frame 100 is clamped to the first save, a
  forward jump from frame 600 is clamped to the latest frame.
\<close>

theorem resolveTarget_clamps_witness:
  "PLAYBACK_FIRST_SAVE consts0 \<le> latestFrame world_playing
   \<and> targetFrameNum (resolveTarget consts0 (world_playing\<lparr>shouldJumpBack := True\<rparr>)) = 200
   \<and> INT_MIN + 300 \<le> 100 \<and> 100 \<le> INT_MAX \<and> 100 - 300 < PLAYBACK_FIRST_SAVE consts0
   \<and> targetFrameNum (resolveTarget consts0
        (world_playing\<lparr>currentPlaybackFrame := 100, shouldJumpBack := True\<rparr>))
       = PLAYBACK_FIRST_SAVE consts0
   \<and> INT_MIN \<le> 600 \<and> 600 \<le> INT_MAX - 300 \<and> latestFrame world_playing < 600 + 300
   \<and> targetFrameNum (resolveTarget consts0
        (world_playing\<lparr>currentPlaybackFrame := 600, shouldJumpForward := True\<rparr>))
       = latestFrame world_playing"
proof -
  have h0: "PLAYBACK_FIRST_SAVE consts0 \<le> latestFrame (world_playing\<lparr>shouldJumpBack := True\<rparr>)"
    by (simp add: world_playing_eq consts0_def)
  have h1: "PLAYBACK_FIRST_SAVE consts0
      \<le> latestFrame (world_playing\<lparr>currentPlaybackFrame := 100, shouldJumpBack := True\<rparr>)"
    by (simp add: world_playing_eq consts0_def)
  have h2: "PLAYBACK_FIRST_SAVE consts0
      \<le> latestFrame (world_playing\<lparr>currentPlaybackFrame := 600, shouldJumpForward := True\<rparr>)"
    by (simp add: world_playing_eq consts0_def)
  have t0: "targetFrameNum (resolveTarget consts0 (world_playing\<lparr>shouldJumpBack := True\<rparr>)) = 200"
    by (simp add: resolveTarget_target jumpBackTarget_def jumpInterval_def to_s32_def to_u32_def
        world_playing_eq consts0_def)
  from resolveTarget_clamps [OF h0] resolveTarget_clamps [OF h1] resolveTarget_clamps [OF h2] t0
  show ?thesis
    by (simp add: world_playing_eq consts0_def INT_MIN_def INT_MAX_def)
qed

text \<open>
  Above \<open>INT_MAX - 300\<close> the forward jump wraps: from frame 2147483547, with
  \<open>latestFrame\<close> 2147483600, the sum taken in \<^verbatim>\<open>u32\<close> and stored in the \<^verbatim>\<open>s32\<close> field
  is \<open>- 2147483449\<close>, and the resolved target is the first save, not \<open>latestFrame\<close>.
\<close>

lemma resolveTarget_forward_jump_wraps:
  "currentPlaybackFrame (world_playing\<lparr>currentPlaybackFrame := 2147483547,
      latestFrame := 2147483600, shouldJumpForward := True\<rparr>) + 300
     > latestFrame (world_playing\<lparr>currentPlaybackFrame := 2147483547,
      latestFrame := 2147483600, shouldJumpForward := True\<rparr>)
   \<and> jumpForwardTarget (world_playing\<lparr>currentPlaybackFrame := 2147483547,
      latestFrame := 2147483600, shouldJumpForward := True\<rparr>) = - 2147483449
   \<and> targetFrameNum (resolveTarget consts0 (world_playing\<lparr>currentPlaybackFrame := 2147483547,
      latestFrame := 2147483600, shouldJumpForward := True\<rparr>)) = - 122"
  by (simp add: resolveTarget_target jumpForwardTarget_def jumpInterval_def to_s32_def to_u32_def
      world_playing_eq consts0_def)

subsection \<open>resetPlayback\<close>

text \<open>
  C7, as the code has it. A second call of \<open>resetPlayback\<close> right after a first
  performs no thread operation, sends no signal and changes nothing. After any call
  \<open>shouldRunThreads\<close>, \<open>shouldJumpBack\<close>, \<open>shouldJumpForward\<close>, \<open>isHardFFW\<close>,
  \<open>isSoftFFW\<close> and \<open>inSlippiPlayback\<close> are false and \<open>targetFrameNum\<close> is
  \<open>INT_MAX\<close>, the values the constructor sets. \<open>currentPlaybackFrame\<close>, \<open>latestFrame\<close>,
  \<open>lastFFWFrame\<close> and the saved overclock settings keep the values they had before
  the call.
\<close>

theorem resetPlayback_twice_and_flags:
  "resetPlayback (snd (resetPlayback w)) = ([], snd (resetPlayback w))
   \<and> shouldRunThreads (snd (resetPlayback w)) = shouldRunThreads (SlippiPlaybackStatus c w)
   \<and> shouldJumpBack (snd (resetPlayback w)) = shouldJumpBack (SlippiPlaybackStatus c w)
   \<and> shouldJumpForward (snd (resetPlayback w)) = shouldJumpForward (SlippiPlaybackStatus c w)
   \<and> isHardFFW (snd (resetPlayback w)) = isHardFFW (SlippiPlaybackStatus c w)
   \<and> isSoftFFW (snd (resetPlayback w)) = isSoftFFW (SlippiPlaybackStatus c w)
   \<and> inSlippiPlayback (snd (resetPlayback w)) = inSlippiPlayback (SlippiPlaybackStatus c w)
   \<and> targetFrameNum (snd (resetPlayback w)) = targetFrameNum (SlippiPlaybackStatus c w)
   \<and> targetFrameNum (snd (resetPlayback w)) = INT_MAX
   \<and> shouldRunThreads (snd (resetPlayback w)) = False
   \<and> shouldJumpBack (snd (resetPlayback w)) = False
   \<and> shouldJumpForward (snd (resetPlayback w)) = False
   \<and> isHardFFW (snd (resetPlayback w)) = False
   \<and> isSoftFFW (snd (resetPlayback w)) = False
   \<and> inSlippiPlayback (snd (resetPlayback w)) = False
   \<and> currentPlaybackFrame (snd (resetPlayback w)) = currentPlaybackFrame w
   \<and> latestFrame (snd (resetPlayback w)) = latestFrame w
   \<and> lastFFWFrame (snd (resetPlayback w)) = lastFFWFrame w
   \<and> prevOCEnable (snd (resetPlayback w)) = prevOCEnable w
   \<and> prevOCFactor (snd (resetPlayback w)) = prevOCFactor w"
  by (simp add: resetPlayback_def SlippiPlaybackStatus_def)

text \<open>
  C7 as stated fails: a session that has advanced to frame 500 of 800 and is then
  reset still has \<open>currentPlaybackFrame = 500\<close>, \<open>latestFrame = 800\<close> and
  \<open>lastFFWFrame = 480\<close>, where the constructor sets \<open>INT_MIN\<close>, \<open>GAME_FIRST_FRAME\<close>
  and \<open>INT_MIN\<close>.
\<close>

theorem resetPlayback_keeps_frame_counters_counterexample:
  "currentPlaybackFrame (snd (resetPlayback world_playing)) = 500
   \<and> currentPlaybackFrame (SlippiPlaybackStatus consts0 world_playing) = - 2147483648
   \<and> latestFrame (snd (resetPlayback world_playing)) = 800
   \<and> latestFrame (SlippiPlaybackStatus consts0 world_playing) = - 123
   \<and> lastFFWFrame (snd (resetPlayback world_playing)) = 480
   \<and> lastFFWFrame (SlippiPlaybackStatus consts0 world_playing) = - 2147483648"
  by (simp add: resetPlayback_def world_playing_def startThreads_def SlippiPlaybackStatus_def
      world0_def consts0_def INT_MIN_def)

subsection \<open>updateWatchSettingsStartEnd\<close>

text \<open>
  C8, as the code has it. \<open>updateWatchSettingsStartEnd\<close> widens the bounds of the
  replay source so that they reach the target: after the call the interval
  \<open>[startFrame, endFrame]\<close> is never narrower than before. With bounds that are not
  both at their defaults, a \<open>targetFrameNum\<close> below \<open>startFrame\<close> becomes the new
  \<open>startFrame\<close> and a \<open>targetFrameNum\<close> above \<open>endFrame\<close> sets \<open>endFrame\<close> to
  \<open>INT_MAX\<close>; a bound the target does not pass is kept, bounds at their defaults are
  kept, and nothing but the two bounds changes.
\<close>

theorem updateWatchSettingsStartEnd_widens:
  assumes "endFrame w \<le> INT_MAX"
  shows "startFrame (updateWatchSettingsStartEnd c w) \<le> startFrame w
     \<and> endFrame w \<le> endFrame (updateWatchSettingsStartEnd c w)
     \<and> ((startFrame w \<noteq> GAME_FIRST_FRAME c \<or> endFrame w \<noteq> INT_MAX) \<and> targetFrameNum w < startFrame w
          \<longrightarrow> startFrame (updateWatchSettingsStartEnd c w) = targetFrameNum w)
     \<and> ((startFrame w \<noteq> GAME_FIRST_FRAME c \<or> endFrame w \<noteq> INT_MAX) \<and> endFrame w < targetFrameNum w
          \<longrightarrow> endFrame (updateWatchSettingsStartEnd c w) = INT_MAX)
     \<and> (startFrame w \<le> targetFrameNum w
          \<longrightarrow> startFrame (updateWatchSettingsStartEnd c w) = startFrame w)
     \<and> (targetFrameNum w \<le> endFrame w
          \<longrightarrow> endFrame (updateWatchSettingsStartEnd c w) = endFrame w)
     \<and> (startFrame w = GAME_FIRST_FRAME c \<and> endFrame w = INT_MAX
          \<longrightarrow> updateWatchSettingsStartEnd c w = w)
     \<and> updateWatchSettingsStartEnd c w
         = w\<lparr>startFrame := startFrame (updateWatchSettingsStartEnd c w),
              endFrame := endFrame (updateWatchSettingsStartEnd c w)\<rparr>"
  using assms by (auto simp: updateWatchSettingsStartEnd_def Let_def)

text \<open>
  The theorem at a queue entry bounded to \<open>[100, 500]\<close>: a target of 50 moves the
  start to 50, a target of 600 moves the end to \<open>INT_MAX\<close>, a target of 300 moves
  nothing.
\<close>

theorem updateWatchSettingsStartEnd_widens_witness:
  "endFrame (world_playing\<lparr>startFrame := 100, endFrame := 500, targetFrameNum := 50\<rparr>) \<le> INT_MAX
   \<and> startFrame (updateWatchSettingsStartEnd consts0
        (world_playing\<lparr>startFrame := 100, endFrame := 500, targetFrameNum := 50\<rparr>)) = 50
   \<and> endFrame (updateWatchSettingsStartEnd consts0
        (world_playing\<lparr>startFrame := 100, endFrame := 500, targetFrameNum := 600\<rparr>)) = INT_MAX
   \<and> startFrame (updateWatchSettingsStartEnd consts0
        (world_playing\<lparr>startFrame := 100, endFrame := 500, targetFrameNum := 300\<rparr>)) = 100
   \<and> endFrame (updateWatchSettingsStartEnd consts0
        (world_playing\<lparr>startFrame := 100, endFrame := 500, targetFrameNum := 300\<rparr>)) = 500"
proof -
  let ?w = "\<lambda>t. world_playing\<lparr>startFrame := 100, endFrame := 500, targetFrameNum := t\<rparr>"
  have e: "endFrame (?w t) \<le> INT_MAX" for t
    by (simp add: INT_MAX_def)
  from updateWatchSettingsStartEnd_widens [OF e [of 50], of consts0]
    updateWatchSettingsStartEnd_widens [OF e [of 600], of consts0]
    updateWatchSettingsStartEnd_widens [OF e [of 300], of consts0]
  show ?thesis
    by (simp add: INT_MAX_def)
qed

text \<open>
  C8 as stated fails: the bounds \<open>[100, 500]\<close> become \<open>[50, 500]\<close> for the target 50
  and \<open>[100, INT_MAX]\<close> for the target 600; both are wider than before.
\<close>

theorem updateWatchSettingsStartEnd_not_narrower_counterexample:
  "startFrame (updateWatchSettingsStartEnd consts0
      (world_playing\<lparr>replayComm_mode := ''queue'', startFrame := 100, endFrame := 500,
         targetFrameNum := 50\<rparr>)) = 50
   \<and> endFrame (updateWatchSettingsStartEnd consts0
      (world_playing\<lparr>replayComm_mode := ''queue'', startFrame := 100, endFrame := 500,
         targetFrameNum := 50\<rparr>)) = 500
   \<and> startFrame (updateWatchSettingsStartEnd consts0
      (world_playing\<lparr>replayComm_mode := ''queue'', startFrame := 100, endFrame := 500,
         targetFrameNum := 600\<rparr>)) = 100
   \<and> endFrame (updateWatchSettingsStartEnd consts0
      (world_playing\<lparr>replayComm_mode := ''queue'', startFrame := 100, endFrame := 500,
         targetFrameNum := 600\<rparr>)) = 2147483647"
  by (simp add: updateWatchSettingsStartEnd_def Let_def consts0_def INT_MAX_def)

subsection \<open>The walk over the snapshot boundaries\<close>

lemma walkDown_step:
  "bound < frame \<Longrightarrow> fd frame = None \<Longrightarrow>
   walkDown fd bound frame = walkDown fd bound (sub_s32 frame FRAME_INTERVAL)"
  by (subst walkDown.simps) simp

lemma walkDown_done:
  "\<not> (bound < frame \<and> fd frame = None) \<Longrightarrow> walkDown fd bound frame = Some frame"
  by (subst walkDown.simps) auto

lemma grid_step_down:
  assumes "g \<le> f" and "g \<noteq> f" and "FRAME_INTERVAL dvd (f - g)"
  shows "g \<le> f - FRAME_INTERVAL \<and> FRAME_INTERVAL dvd (f - FRAME_INTERVAL - g)"
proof -
  from assms(1,2) have pos: "0 < f - g" by simp
  from zdvd_imp_le [OF assms(3) pos] have "g \<le> f - FRAME_INTERVAL" by simp
  moreover have "FRAME_INTERVAL dvd (f - g - FRAME_INTERVAL)"
    using assms(3) by (rule dvd_diff) simp
  ultimately show ?thesis by (simp add: algebra_simps)
qed

text \<open>
  With a bound of \<open>INT_MIN + 899\<close> or more the decrement never overflows, and the walk
  ends: at a frame on the grid of its start, which has an entry if it is above the
  bound, all boundaries passed on the way being above the bound and without entry.
\<close>

lemma walkDown_result:
  assumes "INT_MIN + 899 \<le> b" and "f \<le> INT_MAX"
  shows "\<exists>r. walkDown fd b f = Some r \<and> r \<le> f \<and> FRAME_INTERVAL dvd (f - r)
     \<and> (b < r \<longrightarrow> fd r \<noteq> None)
     \<and> (\<forall>g. r < g \<and> g \<le> f \<and> FRAME_INTERVAL dvd (f - g) \<longrightarrow> b < g \<and> fd g = None)"
  using assms(2)
proof (induction "nat (f - b)" arbitrary: f rule: less_induct)
  case less
  show ?case
  proof (cases "b < f \<and> fd f = None")
    case True
    have lo: "INT_MIN \<le> f - FRAME_INTERVAL"
      using True assms(1) by (simp add: FRAME_INTERVAL_def)
    have hi: "f - FRAME_INTERVAL \<le> INT_MAX"
      using less.prems by (simp add: FRAME_INTERVAL_def)
    have "walkDown fd b f = walkDown fd b (sub_s32 f FRAME_INTERVAL)"
      using True by (intro walkDown_step) simp_all
    then have step: "walkDown fd b f = walkDown fd b (f - FRAME_INTERVAL)"
      by (simp add: sub_s32_exact [OF lo hi])
    have "nat (f - FRAME_INTERVAL - b) < nat (f - b)"
      using True by (simp add: FRAME_INTERVAL_def)
    from less.hyps [OF this hi] obtain r
      where res: "walkDown fd b (f - FRAME_INTERVAL) = Some r"
        and le: "r \<le> f - FRAME_INTERVAL"
        and grid: "FRAME_INTERVAL dvd (f - FRAME_INTERVAL - r)"
        and stop: "b < r \<longrightarrow> fd r \<noteq> None"
        and passed: "\<forall>g. r < g \<and> g \<le> f - FRAME_INTERVAL \<and> FRAME_INTERVAL dvd (f - FRAME_INTERVAL - g)
              \<longrightarrow> b < g \<and> fd g = None"
      by blast
    from le have le': "r \<le> f"
      by (simp add: FRAME_INTERVAL_def)
    from grid have "FRAME_INTERVAL dvd (f - FRAME_INTERVAL - r + FRAME_INTERVAL)"
      by (rule dvd_add) simp
    then have grid': "FRAME_INTERVAL dvd (f - r)"
      by (simp add: algebra_simps)
    have passed': "\<forall>g. r < g \<and> g \<le> f \<and> FRAME_INTERVAL dvd (f - g) \<longrightarrow> b < g \<and> fd g = None"
    proof (intro allI impI)
      fix g
      assume g: "r < g \<and> g \<le> f \<and> FRAME_INTERVAL dvd (f - g)"
      show "b < g \<and> fd g = None"
      proof (cases "g = f")
        case True
        with \<open>b < f \<and> fd f = None\<close> show ?thesis by simp
      next
        case False
        from g have "g \<le> f" and "FRAME_INTERVAL dvd (f - g)" by simp_all
        from grid_step_down [OF this(1) False this(2)] g passed show ?thesis
          by simp
      qed
    qed
    from step res le' grid' stop passed' show ?thesis
      by simp
  next
    case False
    then have "walkDown fd b f = Some f"
      by (rule walkDown_done)
    with False show ?thesis
      by auto
  qed
qed

lemma loadState_nonempty: "loadState c w f \<noteq> []"
  by (simp add: loadState_def)

lemma seekLoad_forward:
  assumes "currentPlaybackFrame w < targetFrameNum w"
    and "futureDiffs w closest = None"
    and "PLAYBACK_FIRST_SAVE c < closest"
  shows "seekLoad c w closest =
     (if currentPlaybackFrame w < closest then
        (case walkDown (futureDiffs w) (currentPlaybackFrame w) (sub_s32 closest FRAME_INTERVAL) of
           None \<Rightarrow> None
         | Some f \<Rightarrow> Some (if currentPlaybackFrame w < f then loadState c w f else []))
      else Some [])"
proof (cases "currentPlaybackFrame w < closest")
  case True
  with assms show ?thesis by (simp add: seekLoad_def Let_def)
next
  case False
  with assms show ?thesis by (simp add: seekLoad_def Let_def)
qed

text \<open>
  C5. Take a forward seek (\<open>targetFrameNum > currentPlaybackFrame\<close>) whose
  \<open>closestStateFrame\<close>, a boundary above the first save, has no entry in
  \<open>futureDiffs\<close>, with \<open>currentPlaybackFrame\<close> at least \<open>INT_MIN + 899\<close> and
  \<open>closestStateFrame\<close> at most \<open>INT_MAX\<close>, so that the decrements of the walk stay
  in the 32-bit range. The walk ends. Either nothing is
  loaded, or \<open>loadState\<close> is called for a boundary strictly past
  \<open>currentPlaybackFrame\<close> and below \<open>closestStateFrame\<close> that has an entry, the
  nearest such boundary below \<open>closestStateFrame\<close>. Nothing is loaded exactly when no
  boundary strictly between \<open>currentPlaybackFrame\<close> and \<open>closestStateFrame\<close> has an
  entry: the walk stops at \<open>currentPlaybackFrame\<close> and a forward seek never loads
  a state at or behind it.
\<close>

theorem seekLoad_forward_stops_at_currentPlaybackFrame:
  assumes fwd: "currentPlaybackFrame w < targetFrameNum w"
    and nodiff: "futureDiffs w closest = None"
    and above: "PLAYBACK_FIRST_SAVE c < closest"
    and cur_range: "INT_MIN + 899 \<le> currentPlaybackFrame w"
    and closest_range: "closest \<le> INT_MAX"
  shows "\<exists>es. seekLoad c w closest = Some es
     \<and> (es = [] \<or>
          (\<exists>f. es = loadState c w f
             \<and> currentPlaybackFrame w < f \<and> f < closest \<and> FRAME_INTERVAL dvd (closest - f)
             \<and> futureDiffs w f \<noteq> None
             \<and> (\<forall>g. f < g \<and> g < closest \<and> FRAME_INTERVAL dvd (closest - g)
                   \<longrightarrow> futureDiffs w g = None)))
     \<and> ((es = []) =
          (\<forall>g. currentPlaybackFrame w < g \<and> g < closest \<and> FRAME_INTERVAL dvd (closest - g)
               \<longrightarrow> futureDiffs w g = None))"
proof (cases "currentPlaybackFrame w < closest")
  case False
  then have "seekLoad c w closest = Some []"
    using seekLoad_forward [OF fwd nodiff above] by simp
  moreover have "\<forall>g. currentPlaybackFrame w < g \<and> g < closest \<and> FRAME_INTERVAL dvd (closest - g)
               \<longrightarrow> futureDiffs w g = None"
    using False by auto
  ultimately show ?thesis
    by simp
next
  case ahead: True
  let ?cur = "currentPlaybackFrame w"
  let ?fd = "futureDiffs w"
  let ?start = "closest - FRAME_INTERVAL"
  have lo: "INT_MIN \<le> ?start"
    using ahead cur_range by (simp add: FRAME_INTERVAL_def)
  have hi: "?start \<le> INT_MAX"
    using closest_range by (simp add: FRAME_INTERVAL_def)
  have start: "sub_s32 closest FRAME_INTERVAL = ?start"
    using lo hi by (rule sub_s32_exact)
  from walkDown_result [OF cur_range hi, of ?fd] obtain r
    where res: "walkDown ?fd ?cur ?start = Some r"
      and le: "r \<le> ?start"
      and grid0: "FRAME_INTERVAL dvd (?start - r)"
      and stop: "?cur < r \<longrightarrow> ?fd r \<noteq> None"
      and passed: "\<forall>g. r < g \<and> g \<le> ?start \<and> FRAME_INTERVAL dvd (?start - g)
            \<longrightarrow> ?cur < g \<and> ?fd g = None"
    by blast
  have load: "seekLoad c w closest = Some (if ?cur < r then loadState c w r else [])"
    using seekLoad_forward [OF fwd nodiff above] ahead by (simp add: start res)
  from le have lt: "r < closest"
    by (simp add: FRAME_INTERVAL_def)
  from grid0 have "FRAME_INTERVAL dvd (?start - r + FRAME_INTERVAL)"
    by (rule dvd_add) simp
  then have grid: "FRAME_INTERVAL dvd (closest - r)"
    by (simp add: algebra_simps)
  have skipped: "?cur < g \<and> ?fd g = None"
    if "r < g" and "g < closest" and "FRAME_INTERVAL dvd (closest - g)" for g
  proof -
    from that(2) have "g \<le> closest" and "g \<noteq> closest" by simp_all
    from grid_step_down [OF this that(3)] that(1) passed show ?thesis
      by simp
  qed
  show ?thesis
  proof (cases "?cur < r")
    case True
    then have loaded: "seekLoad c w closest = Some (loadState c w r)"
      by (simp add: load)
    from True stop have found: "?fd r \<noteq> None"
      by simp
    have nearest: "\<forall>g. r < g \<and> g < closest \<and> FRAME_INTERVAL dvd (closest - g) \<longrightarrow> ?fd g = None"
      using skipped by simp
    have ex: "\<exists>f. loadState c w r = loadState c w f
             \<and> ?cur < f \<and> f < closest \<and> FRAME_INTERVAL dvd (closest - f)
             \<and> ?fd f \<noteq> None
             \<and> (\<forall>g. f < g \<and> g < closest \<and> FRAME_INTERVAL dvd (closest - g) \<longrightarrow> ?fd g = None)"
      by (rule exI [of _ r]) (intro conjI refl True lt grid found nearest)
    have "?cur < r \<and> r < closest \<and> FRAME_INTERVAL dvd (closest - r) \<and> ?fd r \<noteq> None"
      by (intro conjI True lt grid found)
    then have some: "\<not> (\<forall>g. ?cur < g \<and> g < closest \<and> FRAME_INTERVAL dvd (closest - g)
          \<longrightarrow> ?fd g = None)"
      by (intro notI) (drule spec [of _ r], simp)
    have nonempty: "loadState c w r \<noteq> []"
      by (rule loadState_nonempty)
    from some nonempty have "(loadState c w r = []) =
          (\<forall>g. ?cur < g \<and> g < closest \<and> FRAME_INTERVAL dvd (closest - g) \<longrightarrow> ?fd g = None)"
      by simp
    with ex loaded show ?thesis
      by (intro exI [of _ "loadState c w r"] conjI disjI2)
  next
    case False
    then have none: "seekLoad c w closest = Some []"
      by (simp add: load)
    have "\<forall>g. ?cur < g \<and> g < closest \<and> FRAME_INTERVAL dvd (closest - g) \<longrightarrow> ?fd g = None"
    proof (intro allI impI)
      fix g
      assume g: "?cur < g \<and> g < closest \<and> FRAME_INTERVAL dvd (closest - g)"
      show "?fd g = None"
      proof (cases "r < g")
        case True
        with g skipped [of g] show ?thesis by simp
      next
        case False
        with \<open>\<not> ?cur < r\<close> g show ?thesis by simp
      qed
    qed
    with none show ?thesis
      by simp
  qed
qed

text \<open>
  The theorem at a seek from frame 500 to frame 2000 with a diff at the boundary 778
  and none at 1678, the boundary closest to the target: the state of frame 778 is
  loaded. With no diff at all nothing is loaded.
\<close>

theorem seekLoad_forward_stops_at_currentPlaybackFrame_witness:
  "currentPlaybackFrame (world_playing\<lparr>targetFrameNum := 2000, futureDiffs := [778 \<mapsto> ''diff'']\<rparr>)
     < targetFrameNum (world_playing\<lparr>targetFrameNum := 2000, futureDiffs := [778 \<mapsto> ''diff'']\<rparr>)
   \<and> closestStateFrame consts0 2000 = Some 1678
   \<and> futureDiffs (world_playing\<lparr>targetFrameNum := 2000, futureDiffs := [778 \<mapsto> ''diff'']\<rparr>) 1678 = None
   \<and> PLAYBACK_FIRST_SAVE consts0 < 1678
   \<and> INT_MIN + 899
       \<le> currentPlaybackFrame (world_playing\<lparr>targetFrameNum := 2000, futureDiffs := [778 \<mapsto> ''diff'']\<rparr>)
   \<and> 1678 \<le> INT_MAX
   \<and> seekLoad consts0 (world_playing\<lparr>targetFrameNum := 2000, futureDiffs := [778 \<mapsto> ''diff'']\<rparr>) 1678
       = Some [LoadFromBuffer_decoded 778 (Some ''diff'')]
   \<and> seekLoad consts0 (world_playing\<lparr>targetFrameNum := 2000\<rparr>) 1678 = Some []"
proof -
  let ?w = "world_playing\<lparr>targetFrameNum := 2000, futureDiffs := [778 \<mapsto> ''diff'']\<rparr>"
  have a: "currentPlaybackFrame ?w < targetFrameNum ?w"
    by (simp add: world_playing_eq)
  have b: "futureDiffs ?w 1678 = None"
    by simp
  have c: "PLAYBACK_FIRST_SAVE consts0 < 1678"
    by (simp add: consts0_def)
  have d: "INT_MIN + 899 \<le> currentPlaybackFrame ?w"
    by (simp add: world_playing_eq INT_MIN_def)
  have e: "(1678::int) \<le> INT_MAX"
    by (simp add: INT_MAX_def)
  have k: "closestStateFrame consts0 2000 = Some 1678"
    by (simp add: closestStateFrame_wraps consts0_def sub_s32_def to_s32_def)
  have l1: "seekLoad consts0 ?w 1678 = Some [LoadFromBuffer_decoded 778 (Some ''diff'')]"
    by (simp add: seekLoad_def Let_def loadState_def world_playing_eq consts0_def
        FRAME_INTERVAL_def walkDown.simps sub_s32_def to_s32_def)
  have l2: "seekLoad consts0 (world_playing\<lparr>targetFrameNum := 2000\<rparr>) 1678 = Some []"
    by (simp add: seekLoad_def Let_def loadState_def world_playing_eq consts0_def
        FRAME_INTERVAL_def walkDown.simps sub_s32_def to_s32_def)
  from seekLoad_forward_stops_at_currentPlaybackFrame [OF a b c d e] a b c d e k l1 l2
  show ?thesis
    by simp
qed

text \<open>
  Where \<open>closestStateFrame\<close> is not above the first save, a forward seek loads the
  initial state (lines 253 to 256), and only if that boundary is strictly past
  \<open>currentPlaybackFrame\<close>.
\<close>

lemma seekLoad_forward_initial_state:
  assumes "currentPlaybackFrame w < targetFrameNum w"
    and "closest \<le> PLAYBACK_FIRST_SAVE c"
  shows "seekLoad c w closest
     = Some (if currentPlaybackFrame w < closest then [LoadFromBuffer_iState] else [])"
  using assms by (simp add: seekLoad_def Let_def)

subsection \<open>One pass of the seek loop\<close>


lemma updateWatchSettingsStartEnd_other_fields:
  "coreState (updateWatchSettingsStartEnd c w) = coreState w
   \<and> isHardFFW (updateWatchSettingsStartEnd c w) = isHardFFW w
   \<and> m_OCEnable (updateWatchSettingsStartEnd c w) = m_OCEnable w
   \<and> m_OCFactor (updateWatchSettingsStartEnd c w) = m_OCFactor w
   \<and> currentPlaybackFrame (updateWatchSettingsStartEnd c w) = currentPlaybackFrame w"
  by (simp add: updateWatchSettingsStartEnd_def Let_def)




lemma SeekThread_iteration_eq:
  assumes "shouldSeek w"
  shows "SeekThread_iteration c env w =
     (let w3 = resolveTarget c
                 ((if replayComm_mode w = ''queue'' then updateWatchSettingsStartEnd c w else w)
                    \<lparr>coreState := CORE_PAUSE\<rparr>);
          closest = sub_s32 (targetFrameNum w3)
                      (sub_s32 (targetFrameNum w3) (PLAYBACK_FIRST_SAVE c) mod 900);
          drive = (targetFrameNum w3 \<noteq> closest \<and> targetFrameNum w3 \<noteq> latestFrame w3);
          w4 = (if drive then snd (driveFastForward env w3) else w3)
      in case seekLoad c w3 closest of
           None \<Rightarrow> None
         | Some e1 \<Rightarrow>
             Some ([Core_SetState CORE_PAUSE] @ e1
                     @ (if drive then fst (driveFastForward env w3) else [])
                     @ (if coreState w \<noteq> CORE_PAUSE then [Core_SetState CORE_RUN] else []),
                   (if coreState w \<noteq> CORE_PAUSE then w4\<lparr>coreState := CORE_RUN\<rparr> else w4)
                     \<lparr>shouldJumpBack := False, shouldJumpForward := False,
                        targetFrameNum := INT_MAX\<rparr>))"
proof (cases "seekLoad c (resolveTarget c
                 ((if replayComm_mode w = ''queue'' then updateWatchSettingsStartEnd c w else w)
                    \<lparr>coreState := CORE_PAUSE\<rparr>))
      (sub_s32 (targetFrameNum (resolveTarget c
                 ((if replayComm_mode w = ''queue'' then updateWatchSettingsStartEnd c w else w)
                    \<lparr>coreState := CORE_PAUSE\<rparr>)))
         (sub_s32 (targetFrameNum (resolveTarget c
                 ((if replayComm_mode w = ''queue'' then updateWatchSettingsStartEnd c w else w)
                    \<lparr>coreState := CORE_PAUSE\<rparr>))) (PLAYBACK_FIRST_SAVE c) mod 900))")
  case None
  with assms show ?thesis
    by (simp add: SeekThread_iteration_def closestStateFrame_wraps Let_def)
next
  case (Some e1)
  with assms show ?thesis
    by (simp add: SeekThread_iteration_def closestStateFrame_wraps Let_def
        updateWatchSettingsStartEnd_other_fields split_def)
qed




subsection \<open>A pass that does not complete\<close>

text \<open>
  Below those bounds a walk need not end. Every frame a walk visits differs from its
  start by a multiple of 900, modulo \<open>2 ^ 32\<close>, so it keeps the residue of the start
  modulo 4. A walk that ends has met its bound or an entry of \<open>futureDiffs\<close>.
\<close>

lemma to_s32_mod4: "to_s32 x mod 4 = x mod 4"
proof -
  have a: "(x mod 4294967296) mod 4 = x mod 4"
    by (rule mod_mod_cancel) simp
  have b: "(y - 4 * k) mod 4 = y mod 4" for y k :: int
    by presburger
  have c: "(x mod 4294967296 - 4294967296) mod 4 = x mod 4"
    using b [of "x mod 4294967296" 1073741824] a by simp
  show ?thesis
    by (simp add: to_s32_def Let_def a c)
qed

lemma sub_s32_900_mod4: "sub_s32 f FRAME_INTERVAL mod 4 = f mod 4"
proof -
  have "(f - 4 * 225) mod 4 = f mod 4"
    by presburger
  then show ?thesis
    by (simp add: sub_s32_def FRAME_INTERVAL_def to_s32_mod4)
qed

lemma walkDown_stops:
  assumes "walkDown fd b f = Some r"
  shows "r mod 4 = f mod 4 \<and> \<not> (r > b \<and> fd r = None) \<and> (r = f \<or> INT_MIN \<le> r)"
  using assms
proof (rule walkDown.raw_induct [rotated, where P = "\<lambda>fd b f r.
    r mod 4 = f mod 4 \<and> \<not> (r > b \<and> fd r = None) \<and> (r = f \<or> INT_MIN \<le> r)"])
  fix walk :: "(int \<rightharpoonup> string) \<Rightarrow> int \<Rightarrow> int \<Rightarrow> int option" and fd b f r
  assume ih: "\<And>fd b f r. walk fd b f = Some r \<Longrightarrow>
      r mod 4 = f mod 4 \<and> \<not> (r > b \<and> fd r = None) \<and> (r = f \<or> INT_MIN \<le> r)"
    and body: "(if b < f \<and> fd f = None then walk fd b (sub_s32 f FRAME_INTERVAL) else Some f)
      = Some r"
  show "r mod 4 = f mod 4 \<and> \<not> (r > b \<and> fd r = None) \<and> (r = f \<or> INT_MIN \<le> r)"
  proof (cases "b < f \<and> fd f = None")
    case True
    with body have "walk fd b (sub_s32 f FRAME_INTERVAL) = Some r"
      by simp
    moreover have "INT_MIN \<le> sub_s32 f FRAME_INTERVAL"
      using to_s32_range [of "f - FRAME_INTERVAL"] by (simp add: sub_s32_def)
    ultimately show ?thesis
      using ih [of fd b "sub_s32 f FRAME_INTERVAL" r] by (auto simp: sub_s32_900_mod4)
  next
    case False
    with body show ?thesis
      by auto
  qed
qed

lemma walkDown_does_not_end:
  assumes "INT_MIN \<le> f" and "f mod 4 \<noteq> 0"
  shows "walkDown Map.empty INT_MIN f = None"
proof (cases "walkDown Map.empty INT_MIN f")
  case None
  then show ?thesis .
next
  case (Some r)
  from walkDown_stops [OF Some] assms(1) have "r = INT_MIN" and "r mod 4 = f mod 4"
    by auto
  with assms(2) show ?thesis
    by (simp add: INT_MIN_def)
qed

text \<open>
  With \<open>currentPlaybackFrame\<close> at \<open>INT_MIN\<close>, no diff stored and a forward seek to
  frame 2000, the walk of lines 275 to 277 starts at frame 778 and could only stop at
  \<open>INT_MIN\<close> itself, which it never meets: the pass does not complete.
\<close>

lemma SeekThread_iteration_does_not_complete:
  "shouldSeek (world_playing\<lparr>currentPlaybackFrame := INT_MIN, targetFrameNum := 2000,
      latestFrame := 5000\<rparr>)
   \<and> SeekThread_iteration consts0 env
        (world_playing\<lparr>currentPlaybackFrame := INT_MIN, targetFrameNum := 2000,
           latestFrame := 5000\<rparr>) = None"
proof -
  let ?w = "world_playing\<lparr>currentPlaybackFrame := INT_MIN, targetFrameNum := 2000,
      latestFrame := 5000\<rparr>"
  have s: "shouldSeek ?w"
    by (simp add: shouldSeek_def world_playing_eq INT_MAX_def)
  have m: "replayComm_mode ?w \<noteq> ''queue''"
    by (simp add: world_playing_eq)
  have r: "resolveTarget consts0 (?w\<lparr>coreState := CORE_PAUSE\<rparr>) = ?w\<lparr>coreState := CORE_PAUSE\<rparr>"
    by (simp add: resolveTarget_def Let_def world_playing_eq consts0_def)
  have walk: "walkDown (\<lambda>x. None) (- 2147483648) 778 = None"
    using walkDown_does_not_end [of 778] by (simp add: INT_MIN_def)
  have "SeekThread_iteration consts0 env ?w = None"
    by (subst SeekThread_iteration_eq [OF s])
       (simp add: if_not_P [OF m] r,
        simp add: Let_def consts0_def world_playing_eq seekLoad_def INT_MIN_def
          FRAME_INTERVAL_def sub_s32_def to_s32_def walk)
  with s show ?thesis
    by simp
qed

end
